theory Spec2Isabelle
  imports Main "HOL-Library.Word"
begin

unbundle bit_operations_syntax

section \<open>Data model of the interpreter (src/src/interpreter.cpp)\<close>

type_synonym u8 = "8 word"
type_synonym u16 = "16 word"
type_synonym u32 = "32 word"

text \<open>
  The macro \<^verbatim>\<open>BIT(i)\<close> is \<^verbatim>\<open>(1 << i)\<close>; it is used at the width of the
  register it is combined with.
\<close>

definition BIT :: "nat \<Rightarrow> 'a::len word" where
  "BIT i = push_bit i 1"

text \<open>
  The register file is an array of sixteen pointers into the banked backing arrays.
  A pointer is modelled by the cell it designates: the array and the index.
\<close>

datatype cell = Usr nat | Fiq nat | Irq nat | Svc nat | Abt nat | Und nat

text \<open>The \<^verbatim>\<open>spsr\<close> pointer designates one of the five banked SPSRs, or is null.\<close>

datatype psr = SpsrFiq | SpsrIrq | SpsrSvc | SpsrAbt | SpsrUnd

text \<open>
  The members of \<^verbatim>\<open>class Interpreter\<close> that interpreter.cpp uses. Fixed-size arrays are
  total functions of the index (the code indexes them with in-range constants only).
  \<^verbatim>\<open>bios\<close> is the HLE BIOS pointer; only whether it is null matters here.
\<close>

record interp =
  cpu :: bool
  registers :: "nat \<Rightarrow> cell"
  registersUsr :: "nat \<Rightarrow> u32"
  registersFiq :: "nat \<Rightarrow> u32"
  registersIrq :: "nat \<Rightarrow> u32"
  registersSvc :: "nat \<Rightarrow> u32"
  registersAbt :: "nat \<Rightarrow> u32"
  registersUnd :: "nat \<Rightarrow> u32"
  cpsr :: u32
  spsr :: "psr option"
  spsrFiq :: u32
  spsrIrq :: u32
  spsrSvc :: u32
  spsrAbt :: u32
  spsrUnd :: u32
  pipeline :: "nat \<Rightarrow> u32"
  halted :: u8
  cycles :: u32
  ime :: u8
  ie :: u32
  irf :: u32
  postFlg :: u8
  bios :: bool

text \<open>Dereferencing a register pointer, for reading and for writing.\<close>

fun cellRead :: "interp \<Rightarrow> cell \<Rightarrow> u32" where
  "cellRead s (Usr i) = registersUsr s i"
| "cellRead s (Fiq i) = registersFiq s i"
| "cellRead s (Irq i) = registersIrq s i"
| "cellRead s (Svc i) = registersSvc s i"
| "cellRead s (Abt i) = registersAbt s i"
| "cellRead s (Und i) = registersUnd s i"

fun cellWrite :: "cell \<Rightarrow> u32 \<Rightarrow> interp \<Rightarrow> interp" where
  "cellWrite (Usr i) v s = s\<lparr>registersUsr := (registersUsr s)(i := v)\<rparr>"
| "cellWrite (Fiq i) v s = s\<lparr>registersFiq := (registersFiq s)(i := v)\<rparr>"
| "cellWrite (Irq i) v s = s\<lparr>registersIrq := (registersIrq s)(i := v)\<rparr>"
| "cellWrite (Svc i) v s = s\<lparr>registersSvc := (registersSvc s)(i := v)\<rparr>"
| "cellWrite (Abt i) v s = s\<lparr>registersAbt := (registersAbt s)(i := v)\<rparr>"
| "cellWrite (Und i) v s = s\<lparr>registersUnd := (registersUnd s)(i := v)\<rparr>"

text \<open>\<^verbatim>\<open>*registers[i]\<close> as an rvalue and as an lvalue.\<close>

definition getReg :: "interp \<Rightarrow> nat \<Rightarrow> u32" where
  "getReg s i = cellRead s (registers s i)"

definition setReg :: "nat \<Rightarrow> u32 \<Rightarrow> interp \<Rightarrow> interp" where
  "setReg i v s = cellWrite (registers s i) v s"

text \<open>\<^verbatim>\<open>*spsr\<close> for a non-null pointer.\<close>

fun psrRead :: "interp \<Rightarrow> psr \<Rightarrow> u32" where
  "psrRead s SpsrFiq = spsrFiq s"
| "psrRead s SpsrIrq = spsrIrq s"
| "psrRead s SpsrSvc = spsrSvc s"
| "psrRead s SpsrAbt = spsrAbt s"
| "psrRead s SpsrUnd = spsrUnd s"

fun psrWrite :: "psr \<Rightarrow> u32 \<Rightarrow> interp \<Rightarrow> interp" where
  "psrWrite SpsrFiq v s = s\<lparr>spsrFiq := v\<rparr>"
| "psrWrite SpsrIrq v s = s\<lparr>spsrIrq := v\<rparr>"
| "psrWrite SpsrSvc v s = s\<lparr>spsrSvc := v\<rparr>"
| "psrWrite SpsrAbt v s = s\<lparr>spsrAbt := v\<rparr>"
| "psrWrite SpsrUnd v s = s\<lparr>spsrUnd := v\<rparr>"

section \<open>The Core object and the code outside the sources\<close>

text \<open>
  A scheduled task holds a pointer to a callable and a cycle stamp. The only callable
  interpreter.cpp creates is \<^verbatim>\<open>interruptTask\<close>, bound to \<^verbatim>\<open>Interpreter::interrupt\<close>
  of one CPU; every other callable belongs to another component.
\<close>

datatype callee = InterruptTask bool | ForeignTask nat

datatype task = Task (taskFn: callee) (taskCycles: u32)

text \<open>What the \<^verbatim>\<open>LOG\<close> macro is called with; the CPU is printed as 9 or 7.\<close>

datatype log_msg = UnknownMode bool u32 | UnknownArm bool u32 | UnknownThumb bool u16

text \<open>
  The members of \<^verbatim>\<open>Core\<close> that interpreter.cpp reaches through its \<^verbatim>\<open>core\<close> pointer:
  \<^verbatim>\<open>gbaMode\<close>, \<^verbatim>\<open>globalCycles\<close>, \<^verbatim>\<open>tasks\<close>, \<^verbatim>\<open>cp15.getExceptionAddr()\<close>,
  \<^verbatim>\<open>dldi.isPatched()\<close> and \<^verbatim>\<open>memory.read<T>(cpu, address)\<close> at 16 and 32 bits, and the
  lines written by \<^verbatim>\<open>LOG\<close>. The cycle counters are compared as \<^verbatim>\<open>uint32_t\<close>
  (\<^verbatim>\<open>std::min<uint32_t>\<close> in runNdsFrame).
\<close>

record core =
  gbaMode :: bool
  globalCycles :: u32
  tasks :: "task list"
  exceptionAddr :: u32
  dldiPatched :: bool
  memRead16 :: "bool \<Rightarrow> u32 \<Rightarrow> u16"
  memRead32 :: "bool \<Rightarrow> u32 \<Rightarrow> u32"
  logged :: "log_msg list"

text \<open>
  Functions that interpreter.cpp calls and that are defined in other files
  (\<^verbatim>\<open>Core::schedule\<close>, the HLE BIOS, the branch and block-transfer instructions, the
  DLDI back end and its six sentinel opcodes) are parameters of the model: every
  theorem below holds for whatever they do.
\<close>

record ext =
  schedule :: "task \<Rightarrow> core \<Rightarrow> core"
  biosExecute :: "u8 \<Rightarrow> core \<Rightarrow> interp \<Rightarrow> int \<times> core \<times> interp"
  biosShouldCheck :: "core \<Rightarrow> interp \<Rightarrow> bool"
  biosCheckWaitFlags :: "core \<Rightarrow> interp \<Rightarrow> core \<times> interp"
  blx :: "u32 \<Rightarrow> core \<Rightarrow> interp \<Rightarrow> int \<times> core \<times> interp"
  bx :: "u32 \<Rightarrow> core \<Rightarrow> interp \<Rightarrow> int \<times> core \<times> interp"
  ldmiaW :: "u32 \<Rightarrow> core \<Rightarrow> interp \<Rightarrow> int \<times> core \<times> interp"
  DLDI_START :: u32
  DLDI_INSERT :: u32
  DLDI_READ :: u32
  DLDI_WRITE :: u32
  DLDI_CLEAR :: u32
  DLDI_STOP :: u32
  dldiStartup :: "core \<Rightarrow> u32 \<times> core"
  dldiIsInserted :: "core \<Rightarrow> u32 \<times> core"
  dldiReadSectors :: "bool \<Rightarrow> u32 \<Rightarrow> u32 \<Rightarrow> u32 \<Rightarrow> core \<Rightarrow> u32 \<times> core"
  dldiWriteSectors :: "bool \<Rightarrow> u32 \<Rightarrow> u32 \<Rightarrow> u32 \<Rightarrow> core \<Rightarrow> u32 \<times> core"
  dldiClearStatus :: "core \<Rightarrow> u32 \<times> core"
  dldiShutdown :: "core \<Rightarrow> u32 \<times> core"

section \<open>Construction\<close>

text \<open>
  \<^verbatim>\<open>Interpreter::Interpreter(Core *core, bool cpu)\<close> stores \<^verbatim>\<open>cpu\<close> and points the
  sixteen register slots at the user bank. The other members keep the values of the
  object it is run on (\<^verbatim>\<open>raw\<close>).
\<close>

definition Interpreter :: "bool \<Rightarrow> interp \<Rightarrow> interp" where
  "Interpreter c raw =
     raw\<lparr>cpu := c, registers := (\<lambda>i. if i < 16 then Usr i else registers raw i)\<rparr>"

section \<open>Status register and banked registers\<close>

text \<open>
  The test that precedes every call of \<^verbatim>\<open>core->schedule\<close> in the file:
  \<^verbatim>\<open>ime && (ie & irf) && !(cpsr & BIT(7))\<close>.
\<close>

definition pending :: "interp \<Rightarrow> bool" where
  "pending s \<longleftrightarrow> ime s \<noteq> 0 \<and> ie s AND irf s \<noteq> 0 \<and> \<not> (cpsr s AND BIT 7 \<noteq> 0)"

text \<open>
  \<^verbatim>\<open>core->schedule(Task(&interruptTask, (cpu == 1 && !core->gbaMode) ? 2 : 1))\<close>
\<close>

definition scheduleInterrupt :: "ext \<Rightarrow> core \<Rightarrow> interp \<Rightarrow> core" where
  "scheduleInterrupt E co s =
     schedule E (Task (InterruptTask (cpu s)) (if cpu s \<and> \<not> gbaMode co then 2 else 1)) co"

text \<open>The \<^verbatim>\<open>switch (value & 0x1F)\<close> of setCpsr, case by case.\<close>

definition swapBanks :: "u32 \<Rightarrow> core \<Rightarrow> interp \<Rightarrow> core \<times> interp" where
  "swapBanks value co s =
     (let m = value AND 0x1F in
      if m = 0x10 \<or> m = 0x1F then
        (co, s\<lparr>registers := (registers s)
                (8 := Usr 8, 9 := Usr 9, 10 := Usr 10, 11 := Usr 11, 12 := Usr 12,
                 13 := Usr 13, 14 := Usr 14),
              spsr := None\<rparr>)
      else if m = 0x11 then
        (co, s\<lparr>registers := (registers s)
                (8 := Fiq 0, 9 := Fiq 1, 10 := Fiq 2, 11 := Fiq 3, 12 := Fiq 4,
                 13 := Fiq 5, 14 := Fiq 6),
              spsr := Some SpsrFiq\<rparr>)
      else if m = 0x12 then
        (co, s\<lparr>registers := (registers s)
                (8 := Usr 8, 9 := Usr 9, 10 := Usr 10, 11 := Usr 11, 12 := Usr 12,
                 13 := Irq 0, 14 := Irq 1),
              spsr := Some SpsrIrq\<rparr>)
      else if m = 0x13 then
        (co, s\<lparr>registers := (registers s)
                (8 := Usr 8, 9 := Usr 9, 10 := Usr 10, 11 := Usr 11, 12 := Usr 12,
                 13 := Svc 0, 14 := Svc 1),
              spsr := Some SpsrSvc\<rparr>)
      else if m = 0x17 then
        (co, s\<lparr>registers := (registers s)
                (8 := Usr 8, 9 := Usr 9, 10 := Usr 10, 11 := Usr 11, 12 := Usr 12,
                 13 := Abt 0, 14 := Abt 1),
              spsr := Some SpsrAbt\<rparr>)
      else if m = 0x1B then
        (co, s\<lparr>registers := (registers s)
                (8 := Usr 8, 9 := Usr 9, 10 := Usr 10, 11 := Usr 11, 12 := Usr 12,
                 13 := Und 0, 14 := Und 1),
              spsr := Some SpsrUnd\<rparr>)
      else
        (co\<lparr>logged := logged co @ [UnknownMode (cpu s) m]\<rparr>, s))"

text \<open>
  \<^verbatim>\<open>void Interpreter::setCpsr(uint32_t value, bool save)\<close>: swap the banks if the
  mode bits change, save the old CPSR through a non-null \<^verbatim>\<open>spsr\<close> if asked to, store the
  new CPSR, and schedule the interrupt task if an interrupt is pending.
\<close>

definition setCpsr :: "ext \<Rightarrow> u32 \<Rightarrow> bool \<Rightarrow> core \<Rightarrow> interp \<Rightarrow> core \<times> interp" where
  "setCpsr E value save co s =
     (let (co1, s1) =
            (if value AND 0x1F \<noteq> cpsr s AND 0x1F then swapBanks value co s else (co, s));
          s2 = (if save then (case spsr s1 of None \<Rightarrow> s1 | Some p \<Rightarrow> psrWrite p (cpsr s1) s1)
                else s1);
          s3 = s2\<lparr>cpsr := value\<rparr>
      in if pending s3 then (scheduleInterrupt E co1 s3, s3) else (co1, s3))"

section \<open>Pipeline\<close>

text \<open>
  \<^verbatim>\<open>void Interpreter::flushPipeline()\<close>. A 16-bit read is zero-extended into the 32-bit
  pipeline slot.
\<close>

definition flushPipeline :: "core \<Rightarrow> interp \<Rightarrow> interp" where
  "flushPipeline co s =
     (if cpsr s AND BIT 5 \<noteq> 0 then
        (let s1 = setReg 15 ((getReg s 15 AND NOT 1) + 2) s;
             s2 = s1\<lparr>pipeline := (pipeline s1)
                    (0 := ucast (memRead16 co (cpu s1) (getReg s1 15 - 2)))\<rparr>
         in s2\<lparr>pipeline := (pipeline s2)
                    (1 := ucast (memRead16 co (cpu s2) (getReg s2 15)))\<rparr>)
      else
        (let s1 = setReg 15 ((getReg s 15 AND NOT 3) + 4) s;
             s2 = s1\<lparr>pipeline := (pipeline s1)
                    (0 := memRead32 co (cpu s1) (getReg s1 15 - 4))\<rparr>
         in s2\<lparr>pipeline := (pipeline s2)
                    (1 := memRead32 co (cpu s2) (getReg s2 15))\<rparr>))"

section \<open>Boot\<close>

text \<open>\<^verbatim>\<open>void Interpreter::init()\<close>\<close>

definition init :: "ext \<Rightarrow> core \<Rightarrow> interp \<Rightarrow> core \<times> interp" where
  "init E co s =
     (let (co1, s1) = setCpsr E 0x000000D3 False co s;
          s2 = s1\<lparr>registersUsr := (registersUsr s1)
                 (15 := (if \<not> cpu s1 then 0xFFFF0000 else 0x00000000))\<rparr>;
          s3 = flushPipeline co1 s2
      in (co1, s3\<lparr>ime := 0, ie := 0, irf := 0, postFlg := 0\<rparr>))"

text \<open>
  \<^verbatim>\<open>void Interpreter::directBoot()\<close>. Both branches call
  \<^verbatim>\<open>core->memory.read<uint32_t>(0, ...)\<close>: the CPU argument of the read is the literal 0.
\<close>

definition directBoot :: "ext \<Rightarrow> core \<Rightarrow> interp \<Rightarrow> core \<times> interp" where
  "directBoot E co s =
     (let (entryAddr, s1) =
            (if \<not> cpu s then
               (memRead32 co False 0x27FFE24,
                s\<lparr>registersUsr := (registersUsr s)(13 := 0x03002F7C),
                  registersIrq := (registersIrq s)(0 := 0x03003F80),
                  registersSvc := (registersSvc s)(0 := 0x03003FC0)\<rparr>)
             else
               (memRead32 co False 0x27FFE34,
                s\<lparr>registersUsr := (registersUsr s)(13 := 0x0380FD80),
                  registersIrq := (registersIrq s)(0 := 0x0380FF80),
                  registersSvc := (registersSvc s)(0 := 0x0380FFC0)\<rparr>));
          (co2, s2) = setCpsr E 0x000000DF False co s1;
          s3 = s2\<lparr>registersUsr := (registersUsr s2)
                 (12 := entryAddr, 14 := entryAddr, 15 := entryAddr)\<rparr>
      in (co2, flushPipeline co2 s3))"

section \<open>Exceptions and interrupts\<close>

text \<open>
  \<^verbatim>\<open>int Interpreter::exception(uint8_t vector)\<close>. The table \<^verbatim>\<open>modes\<close> has eight
  entries; an index beyond it, and \<^verbatim>\<open>*spsr\<close> through a null pointer, have no defined
  result in C++ and are \<open>None\<close> here.
\<close>

definition modes :: "u32 list" where
  "modes = [0x13, 0x1B, 0x13, 0x17, 0x17, 0x13, 0x12, 0x11]"

definition exception :: "ext \<Rightarrow> u8 \<Rightarrow> core \<Rightarrow> interp \<Rightarrow> (int \<times> core \<times> interp) option" where
  "exception E vector co s =
     (if bios s \<and> (cpu s \<or> exceptionAddr co \<noteq> 0) then Some (biosExecute E vector co s)
      else if \<not> unat (drop_bit 2 vector) < length modes then None
      else
        (let (co1, s1) = setCpsr E ((cpsr s AND NOT 0x3F) OR BIT 7
                                      OR modes ! unat (drop_bit 2 vector)) True co s
         in case spsr s1 of
              None \<Rightarrow> None
            | Some p \<Rightarrow>
                (let s2 = setReg 14 (getReg s1 15 + (if psrRead s1 p AND BIT 5 \<noteq> 0 then 2 else 0)) s1;
                     s3 = setReg 15 ((if cpu s2 then 0 else exceptionAddr co1) + ucast vector) s2
                 in Some (3, co1, flushPipeline co1 s3))))"

text \<open>\<^verbatim>\<open>void Interpreter::sendInterrupt(int bit)\<close>\<close>

definition sendInterrupt :: "ext \<Rightarrow> nat \<Rightarrow> core \<Rightarrow> interp \<Rightarrow> core \<times> interp" where
  "sendInterrupt E b co s =
     (let s1 = s\<lparr>irf := irf s OR BIT b\<rparr> in
      if ie s1 AND irf s1 \<noteq> 0 then
        (if ime s1 \<noteq> 0 \<and> \<not> (cpsr s1 AND BIT 7 \<noteq> 0) then (scheduleInterrupt E co s1, s1)
         else if ime s1 \<noteq> 0 \<or> cpu s1 then (co, s1\<lparr>halted := halted s1 AND NOT (BIT 0)\<rparr>)
         else (co, s1))
      else (co, s1))"

text \<open>
  \<^verbatim>\<open>void Interpreter::interrupt()\<close>, the body of the scheduled task. The value returned
  by \<^verbatim>\<open>exception\<close> is dropped.
\<close>

definition interrupt :: "ext \<Rightarrow> core \<Rightarrow> interp \<Rightarrow> (core \<times> interp) option" where
  "interrupt E co s =
     (if pending s then
        (case exception E 0x18 co s of
           None \<Rightarrow> None
         | Some (n, co1, s1) \<Rightarrow> Some (co1, s1\<lparr>halted := halted s1 AND NOT (BIT 0)\<rparr>))
      else Some (co, s))"

section \<open>Reserved condition code\<close>

text \<open>\<^verbatim>\<open>int Interpreter::unkArm(uint32_t opcode)\<close>: log the opcode, cost 1.\<close>

definition unkArm :: "u32 \<Rightarrow> core \<Rightarrow> interp \<Rightarrow> int \<times> core \<times> interp" where
  "unkArm opcode co s = (1, co\<lparr>logged := logged co @ [UnknownArm (cpu s) opcode]\<rparr>, s)"

text \<open>
  \<^verbatim>\<open>int Interpreter::finishHleIrq()\<close>. It is only called with a non-null \<^verbatim>\<open>bios\<close>.
  The register list is \<^verbatim>\<open>(13 << 16) | BIT(0) | BIT(1) | BIT(2) | BIT(3) | BIT(12) | BIT(14)\<close>.
\<close>

definition finishHleIrq :: "ext \<Rightarrow> core \<Rightarrow> interp \<Rightarrow> int \<times> core \<times> interp" where
  "finishHleIrq E co s =
     (let (co1, s1) = (if biosShouldCheck E co s then biosCheckWaitFlags E co s else (co, s));
          (n, co2, s2) = ldmiaW E (push_bit 16 13 OR BIT 0 OR BIT 1 OR BIT 2 OR BIT 3
                                    OR BIT 12 OR BIT 14) co1 s1;
          s3 = setReg 15 (getReg s2 14 - 4) s2;
          (co4, s4) = (case spsr s3 of
                         None \<Rightarrow> (co2, s3)
                       | Some p \<Rightarrow> setCpsr E (psrRead s3 p) False co2 s3)
      in (3, co4, flushPipeline co4 s4))"

text \<open>
  The \<^verbatim>\<open>switch (opcode)\<close> inside the DLDI branch of handleReserved: six cases, each
  storing the result of a back-end call in \<^verbatim>\<open>*registers[0]\<close>, and no default.
\<close>

definition dldiSwitch :: "ext \<Rightarrow> u32 \<Rightarrow> core \<Rightarrow> interp \<Rightarrow> core \<times> interp" where
  "dldiSwitch E opcode co s =
     (if opcode = DLDI_START E then
        (let (r, co1) = dldiStartup E co in (co1, setReg 0 r s))
      else if opcode = DLDI_INSERT E then
        (let (r, co1) = dldiIsInserted E co in (co1, setReg 0 r s))
      else if opcode = DLDI_READ E then
        (let (r, co1) = dldiReadSectors E (cpu s) (getReg s 0) (getReg s 1) (getReg s 2) co
         in (co1, setReg 0 r s))
      else if opcode = DLDI_WRITE E then
        (let (r, co1) = dldiWriteSectors E (cpu s) (getReg s 0) (getReg s 1) (getReg s 2) co
         in (co1, setReg 0 r s))
      else if opcode = DLDI_CLEAR E then
        (let (r, co1) = dldiClearStatus E co in (co1, setReg 0 r s))
      else if opcode = DLDI_STOP E then
        (let (r, co1) = dldiShutdown E co in (co1, setReg 0 r s))
      else (co, s))"

text \<open>\<^verbatim>\<open>int Interpreter::handleReserved(uint32_t opcode)\<close>\<close>

definition handleReserved :: "ext \<Rightarrow> u32 \<Rightarrow> core \<Rightarrow> interp \<Rightarrow> int \<times> core \<times> interp" where
  "handleReserved E opcode co s =
     (if opcode AND 0x0E000000 = 0x0A000000 then blx E opcode co s
      else if bios s \<and> opcode = 0xFF000000 then finishHleIrq E co s
      else if dldiPatched co then
        (let (co1, s1) = dldiSwitch E opcode co s in bx E 14 co1 s1)
      else unkArm opcode co s)"

section \<open>The NDS frame loop\<close>

text \<open>
  \<^verbatim>\<open>Interpreter::runNdsFrame(Core &core)\<close> works on the Core and its two interpreters.
\<close>

record nds =
  ndsCore :: core
  arm9 :: interp
  arm7 :: interp

text \<open>
  One pass through the body of the inner loop (lines 89 to 99). \<^verbatim>\<open>runOpcode\<close> dispatches
  into instruction tables that are defined in other files and may change any part of
  the machine, so it is the parameter \<open>run\<close>: given the CPU it returns the cycle cost
  and the machine after the opcode. In \<^verbatim>\<open>core.globalCycles + arm9.runOpcode()\<close> the left
  operand is read first here; C++ leaves the order open, and nothing below depends on
  it. The \<^verbatim>\<open>int\<close> cost is converted to \<^verbatim>\<open>uint32_t\<close> by the addition.
\<close>

definition ndsInnerBody :: "(bool \<Rightarrow> nds \<Rightarrow> int \<times> nds) \<Rightarrow> nds \<Rightarrow> nds" where
  "ndsInnerBody run s =
     (let s1 = (if halted (arm9 s) = 0 \<and> globalCycles (ndsCore s) \<ge> cycles (arm9 s) then
                  (let g = globalCycles (ndsCore s); (n, t) = run False s
                   in t\<lparr>arm9 := (arm9 t)\<lparr>cycles := g + word_of_int n\<rparr>\<rparr>)
                else s);
          s2 = (if halted (arm7 s1) = 0 \<and> globalCycles (ndsCore s1) \<ge> cycles (arm7 s1) then
                  (let g = globalCycles (ndsCore s1); (n, t) = run True s1
                   in t\<lparr>arm7 := (arm7 t)\<lparr>cycles := g + word_of_int (n * 2)\<rparr>\<rparr>)
                else s1)
      in s2\<lparr>ndsCore := (ndsCore s2)\<lparr>globalCycles :=
              min (if halted (arm9 s2) \<noteq> 0 then - 1 else cycles (arm9 s2))
                  (if halted (arm7 s2) \<noteq> 0 then - 1 else cycles (arm7 s2))\<rparr>\<rparr>)"

text \<open>
  The inner loop, \<^verbatim>\<open>while (core.tasks[0].cycles > core.globalCycles)\<close>. The result is
  \<open>None\<close> when the loop does not end, and when \<^verbatim>\<open>tasks\<close> is empty (C++ gives
  \<^verbatim>\<open>tasks[0]\<close> no meaning then).
\<close>

partial_function (option) ndsInnerLoop :: "(bool \<Rightarrow> nds \<Rightarrow> int \<times> nds) \<Rightarrow> nds \<Rightarrow> nds option" where
  "ndsInnerLoop run s =
     (case tasks (ndsCore s) of
        [] \<Rightarrow> None
      | t # ts \<Rightarrow>
          if taskCycles t > globalCycles (ndsCore s) then ndsInnerLoop run (ndsInnerBody run s)
          else Some s)"

text \<open>The loop condition, and the states at the end of an iteration of the loop entered at \<open>s0\<close>.\<close>

definition ndsInnerGuard :: "nds \<Rightarrow> bool" where
  "ndsInnerGuard s =
     (case tasks (ndsCore s) of [] \<Rightarrow> False | t # ts \<Rightarrow> taskCycles t > globalCycles (ndsCore s))"

inductive ndsInnerIter :: "(bool \<Rightarrow> nds \<Rightarrow> int \<times> nds) \<Rightarrow> nds \<Rightarrow> nds \<Rightarrow> bool"
  for run :: "bool \<Rightarrow> nds \<Rightarrow> int \<times> nds" and s0 :: nds where
  first: "ndsInnerGuard s0 \<Longrightarrow> ndsInnerIter run s0 (ndsInnerBody run s0)"
| again: "ndsInnerIter run s0 s \<Longrightarrow> ndsInnerGuard s \<Longrightarrow> ndsInnerIter run s0 (ndsInnerBody run s)"

text \<open>A halted CPU's counter counts as the largest \<^verbatim>\<open>uint32_t\<close>, the \<^verbatim>\<open>-1\<close> of the source.\<close>

definition cyclesOrMax :: "interp \<Rightarrow> u32" where
  "cyclesOrMax s = (if halted s \<noteq> 0 then - 1 else cycles s)"

section \<open>The mode bank table of the specification\<close>

text \<open>
  The seven modes of the table in section 4.1 of the specification, with their codes
  (bits 0 to 4 of the CPSR). These definitions follow the rows of the table, not the
  code; \<open>swapBanks\<close> above is compared with them.
\<close>

datatype cpu_mode = User | FIQ | IRQ | Supervisor | Abort | Undefined | System

fun modeCode :: "cpu_mode \<Rightarrow> u32" where
  "modeCode User = 0x10"
| "modeCode FIQ = 0x11"
| "modeCode IRQ = 0x12"
| "modeCode Supervisor = 0x13"
| "modeCode Abort = 0x17"
| "modeCode Undefined = 0x1B"
| "modeCode System = 0x1F"

definition modeOf :: "u32 \<Rightarrow> cpu_mode option" where
  "modeOf m =
     (if m = 0x10 then Some User else if m = 0x11 then Some FIQ
      else if m = 0x12 then Some IRQ else if m = 0x13 then Some Supervisor
      else if m = 0x17 then Some Abort else if m = 0x1B then Some Undefined
      else if m = 0x1F then Some System else None)"

text \<open>Column "R8-R12 source": \<open>Fiq[0..4]\<close> in FIQ mode, the user bank otherwise.\<close>

fun specLow :: "cpu_mode \<Rightarrow> nat \<Rightarrow> cell" where
  "specLow FIQ i = Fiq (i - 8)"
| "specLow m i = Usr i"

text \<open>Column "R13/R14 source".\<close>

fun specHigh :: "cpu_mode \<Rightarrow> nat \<Rightarrow> cell" where
  "specHigh User i = Usr i"
| "specHigh FIQ i = Fiq (i - 8)"
| "specHigh IRQ i = Irq (i - 13)"
| "specHigh Supervisor i = Svc (i - 13)"
| "specHigh Abort i = Abt (i - 13)"
| "specHigh Undefined i = Und (i - 13)"
| "specHigh System i = Usr i"

definition specBank :: "cpu_mode \<Rightarrow> nat \<Rightarrow> cell" where
  "specBank m i = (if i \<le> 12 then specLow m i else specHigh m i)"

text \<open>Column "SPSR".\<close>

fun specSpsr :: "cpu_mode \<Rightarrow> psr option" where
  "specSpsr User = None"
| "specSpsr FIQ = Some SpsrFiq"
| "specSpsr IRQ = Some SpsrIrq"
| "specSpsr Supervisor = Some SpsrSvc"
| "specSpsr Abort = Some SpsrAbt"
| "specSpsr Undefined = Some SpsrUnd"
| "specSpsr System = None"

text \<open>
  The invariant of the register file: slots 0 to 7 and 15 designate the user bank, as
  the constructor leaves them (nothing rebinds them), and whenever the mode bits of the
  CPSR are one of the seven codes, slots 8 to 14 and \<^verbatim>\<open>spsr\<close> are bound as the table
  says. The constructor establishes it on an object whose mode bits are none of the
  seven codes, and setCpsr, the only function of the file that rebinds a slot or writes
  the CPSR, keeps it; so do flushPipeline, init, directBoot, sendInterrupt and the
  register writes (lemmas \<open>bankInv_Interpreter\<close>, \<open>bankInv_setCpsr\<close> and those
  that follow them).
\<close>

definition bankInv :: "interp \<Rightarrow> bool" where
  "bankInv s \<longleftrightarrow>
     list_all (\<lambda>i. registers s i = Usr i) [0..<8] \<and> registers s 15 = Usr 15 \<and>
     (case modeOf (cpsr s AND 0x1F) of
        None \<Rightarrow> True
      | Some m \<Rightarrow> list_all (\<lambda>i. registers s i = specBank m i) [8..<15] \<and> spsr s = specSpsr m)"

section \<open>Concrete machines\<close>

text \<open>An object whose members are all zero, null or false, and the two CPUs built on it.\<close>

definition blank :: interp where
  "blank = \<lparr>cpu = False, registers = (\<lambda>i. Usr 0),
     registersUsr = (\<lambda>i. 0), registersFiq = (\<lambda>i. 0), registersIrq = (\<lambda>i. 0),
     registersSvc = (\<lambda>i. 0), registersAbt = (\<lambda>i. 0), registersUnd = (\<lambda>i. 0),
     cpsr = 0, spsr = None, spsrFiq = 0, spsrIrq = 0, spsrSvc = 0, spsrAbt = 0, spsrUnd = 0,
     pipeline = (\<lambda>i. 0), halted = 0, cycles = 0, ime = 0, ie = 0, irf = 0, postFlg = 0,
     bios = False\<rparr>"

definition demo9 :: interp where
  "demo9 = Interpreter False blank"

definition demo7 :: interp where
  "demo7 = Interpreter True blank"

text \<open>
  A Core in NDS mode with the ARM9 exception base at 0xFFFF0000 and a memory whose
  contents depend on the CPU that reads: the ARM9 bus holds two cartridge entry
  addresses in the header, the ARM7 bus returns the address read.
\<close>

definition demoCore :: core where
  "demoCore = \<lparr>gbaMode = False, globalCycles = 100, tasks = [Task (ForeignTask 0) 200],
     exceptionAddr = 0xFFFF0000, dldiPatched = False,
     memRead16 = (\<lambda>c a. ucast a),
     memRead32 = (\<lambda>c a. if c then a
                         else if a = 0x27FFE24 then 0x02000800
                         else if a = 0x27FFE34 then 0x02380000 else 0),
     logged = []\<rparr>"

text \<open>
  Modelled from the spec: \<^verbatim>\<open>Core::schedule\<close> (core.cpp is not among the sources)
  "inserts at \<open>globalCycles + delay\<close> preserving order", ties in insertion order.
\<close>

fun insertTask :: "task \<Rightarrow> task list \<Rightarrow> task list" where
  "insertTask t [] = [t]"
| "insertTask t (u # us) =
     (if taskCycles t < taskCycles u then t # u # us else u # insertTask t us)"

definition scheduleSpec :: "task \<Rightarrow> core \<Rightarrow> core" where
  "scheduleSpec t co =
     co\<lparr>tasks := insertTask (Task (taskFn t) (globalCycles co + taskCycles t)) (tasks co)\<rparr>"

text \<open>
  Stand-ins for the remaining outside code, used only to run the model on concrete
  inputs: each returns at once, with cost 3 where a cost is returned. The DLDI
  sentinels are six consecutive opcodes from 0xF0000000.
\<close>

definition demoExt :: ext where
  "demoExt = \<lparr>schedule = scheduleSpec,
     biosExecute = (\<lambda>v co s. (3, co, s)),
     biosShouldCheck = (\<lambda>co s. False),
     biosCheckWaitFlags = (\<lambda>co s. (co, s)),
     blx = (\<lambda>opcode co s. (3, co, s)),
     bx = (\<lambda>opcode co s. (3, co, s)),
     ldmiaW = (\<lambda>opcode co s. (3, co, s)),
     DLDI_START = 0xF0000000, DLDI_INSERT = 0xF0000001, DLDI_READ = 0xF0000002,
     DLDI_WRITE = 0xF0000003, DLDI_CLEAR = 0xF0000004, DLDI_STOP = 0xF0000005,
     dldiStartup = (\<lambda>co. (0, co)),
     dldiIsInserted = (\<lambda>co. (0, co)),
     dldiReadSectors = (\<lambda>c a b d co. (0, co)),
     dldiWriteSectors = (\<lambda>c a b d co. (0, co)),
     dldiClearStatus = (\<lambda>co. (0, co)),
     dldiShutdown = (\<lambda>co. (0, co))\<rparr>"

text \<open>
  Both CPUs at cycle 100 with the ARM7 halted, and opcodes that cost 3 cycles on the
  ARM9 (the first one wakes the ARM7) and 1 cycle on the ARM7.
\<close>

definition demoNds :: nds where
  "demoNds = \<lparr>ndsCore = demoCore, arm9 = demo9\<lparr>cycles := 100\<rparr>,
     arm7 = demo7\<lparr>cycles := 100, halted := 1\<rparr>\<rparr>"

definition demoRun :: "bool \<Rightarrow> nds \<Rightarrow> int \<times> nds" where
  "demoRun c s = (if c then (1, s) else (3, s\<lparr>arm7 := (arm7 s)\<lparr>halted := 0\<rparr>\<rparr>))"

section \<open>Interrupt registers\<close>

text \<open>
  \<^verbatim>\<open>void Interpreter::writeIrf(uint32_t mask, uint32_t value) { irf &= ~(value & mask); }\<close>
\<close>

definition writeIrf :: "u32 \<Rightarrow> u32 \<Rightarrow> interp \<Rightarrow> interp" where
  "writeIrf msk value s = s\<lparr>irf := irf s AND NOT (value AND msk)\<rparr>"

text \<open>
  \<^verbatim>\<open>postFlg |= value & 0x01; if (cpu == 0) postFlg = (postFlg & ~0x02) | (value & 0x02);\<close>
\<close>

definition writePostFlg :: "u8 \<Rightarrow> interp \<Rightarrow> interp" where
  "writePostFlg value s =
     (let s1 = s\<lparr>postFlg := postFlg s OR (value AND 0x01)\<rparr> in
      if \<not> cpu s1 then s1\<lparr>postFlg := (postFlg s1 AND NOT 0x02) OR (value AND 0x02)\<rparr>
      else s1)"

text \<open>A sequence of calls, in order.\<close>

definition writePostFlgSeq :: "u8 list \<Rightarrow> interp \<Rightarrow> interp" where
  "writePostFlgSeq vs s = fold writePostFlg vs s"

section \<open>Auxiliary facts\<close>

lemmas demo_defs = demo9_def demo7_def Interpreter_def blank_def demoCore_def demoExt_def

lemma getReg_setReg_same [simp]: "getReg (setReg i v s) i = v"
  by (cases "registers s i") (simp_all add: getReg_def setReg_def)

lemma registers_setReg [simp]: "registers (setReg i v s) = registers s"
  by (cases "registers s i") (simp_all add: setReg_def)

lemma cpu_setReg [simp]: "cpu (setReg i v s) = cpu s"
  by (cases "registers s i") (simp_all add: setReg_def)

lemma cpsr_setReg [simp]: "cpsr (setReg i v s) = cpsr s"
  by (cases "registers s i") (simp_all add: setReg_def)

lemma pipeline_setReg [simp]: "pipeline (setReg i v s) = pipeline s"
  by (cases "registers s i") (simp_all add: setReg_def)

lemma getReg_pipeline_update [simp]: "getReg (s\<lparr>pipeline := p\<rparr>) i = getReg s i"
  by (cases "registers s i") (simp_all add: getReg_def)

lemma registers_psrWrite [simp]: "registers (psrWrite p v s) = registers s"
  by (cases p) simp_all

lemma spsr_psrWrite [simp]: "spsr (psrWrite p v s) = spsr s"
  by (cases p) simp_all

lemma cpsr_psrWrite [simp]: "cpsr (psrWrite p v s) = cpsr s"
  by (cases p) simp_all

lemma cpu_psrWrite [simp]: "cpu (psrWrite p v s) = cpu s"
  by (cases p) simp_all

lemma swapBanks_valid:
  assumes "value AND 0x1F = modeCode m"
  shows "swapBanks value co s =
           (co, s\<lparr>registers := (\<lambda>i. if 8 \<le> i \<and> i \<le> 14 then specBank m i else registers s i),
                 spsr := specSpsr m\<rparr>)"
proof -
  have "(registers s)(8 := specBank m 8, 9 := specBank m 9, 10 := specBank m 10,
           11 := specBank m 11, 12 := specBank m 12, 13 := specBank m 13, 14 := specBank m 14)
        = (\<lambda>i. if 8 \<le> i \<and> i \<le> 14 then specBank m i else registers s i)" (is "?f = ?g")
  proof
    fix i :: nat
    consider "i < 8" | "i = 8" | "i = 9" | "i = 10" | "i = 11" | "i = 12" | "i = 13" | "i = 14" | "14 < i"
      by linarith
    then show "?f i = ?g i" by cases simp_all
  qed
  then show ?thesis using assms
    by (cases m) (simp_all add: swapBanks_def specBank_def)
qed

lemma swapBanks_invalid:
  assumes "\<forall>m. value AND 0x1F \<noteq> modeCode m"
  shows "swapBanks value co s = (co\<lparr>logged := logged co @ [UnknownMode (cpu s) (value AND 0x1F)]\<rparr>, s)"
  using assms [rule_format, of User] assms [rule_format, of FIQ] assms [rule_format, of IRQ]
    assms [rule_format, of Supervisor] assms [rule_format, of Abort]
    assms [rule_format, of Undefined] assms [rule_format, of System]
  by (simp add: swapBanks_def)

lemma setCpsr_snd:
  "snd (setCpsr E value save co s) =
     (let s1 = snd (if value AND 0x1F \<noteq> cpsr s AND 0x1F then swapBanks value co s else (co, s));
          s2 = (if save then (case spsr s1 of None \<Rightarrow> s1 | Some p \<Rightarrow> psrWrite p (cpsr s1) s1)
                else s1)
      in s2\<lparr>cpsr := value\<rparr>)"
  by (cases "swapBanks value co s") (simp add: setCpsr_def Let_def split: option.splits)

lemma setCpsr_registers:
  "registers (snd (setCpsr E value save co s)) =
     registers (snd (if value AND 0x1F \<noteq> cpsr s AND 0x1F then swapBanks value co s else (co, s)))"
  by (simp add: setCpsr_snd Let_def split: option.splits)

lemma setCpsr_spsr:
  "spsr (snd (setCpsr E value save co s)) =
     spsr (snd (if value AND 0x1F \<noteq> cpsr s AND 0x1F then swapBanks value co s else (co, s)))"
  by (simp add: setCpsr_snd Let_def split: option.splits)

lemma word_aligned2: "\<not> bit ((x AND NOT 1) + 2 :: u32) 0"
  by (simp add: bit_0 even_and_iff)

lemma word_aligned4: "((x AND NOT 3) + 4 :: u32) AND 3 = 0"
proof -
  have m3: "\<And>y :: u32. y AND 3 = take_bit 2 y"
    by (simp add: take_bit_eq_mask mask_eq_exp_minus_1)
  have "take_bit 2 (x AND NOT 3) = 0"
    unfolding m3 [symmetric] by (simp add: and.assoc)
  then have "2 ^ 2 dvd (x AND NOT 3)" by (simp only: take_bit_eq_0_iff)
  then have "2 ^ 2 dvd (x AND NOT 3) + 4" by simp
  then have "take_bit 2 ((x AND NOT 3) + 4) = 0" by (simp only: take_bit_eq_0_iff)
  then show ?thesis by (simp only: m3)
qed

lemma writePostFlg_bit0:
  "bit (postFlg (writePostFlg v s)) 0 = (bit (postFlg s) 0 \<or> bit v 0)"
  by (simp add: writePostFlg_def Let_def bit_simps)

section \<open>Interrupt request acknowledgement\<close>

text \<open>
  C3: for every prior state, mask and value, writeIrf leaves irf equal to
  irf_before AND NOT (value AND mask): a pending bit is cleared exactly when both
  value and mask select it, and every other bit keeps its value.
\<close>

theorem writeIrf_acknowledge:
  "irf (writeIrf msk value s) = irf s AND NOT (value AND msk) \<and>
   (\<forall>n. bit (irf (writeIrf msk value s)) n =
        (bit (irf s) n \<and> \<not> (bit value n \<and> bit msk n)))"
  by (auto simp add: writeIrf_def bit_simps dest: bit_imp_le_length)

section \<open>Sticky bit of POSTFLG\<close>

text \<open>
  C9: bit 0 of postFlg never decreases under any sequence of writePostFlg calls, on
  either CPU: if it is set before the sequence, it is set after it.
\<close>

theorem writePostFlg_bit0_sticky:
  "bit (postFlg s) 0 \<Longrightarrow> bit (postFlg (writePostFlgSeq vs s)) 0"
  unfolding writePostFlgSeq_def
proof (induction vs arbitrary: s)
  case Nil
  then show ?case by simp
next
  case (Cons v vs)
  have "bit (postFlg (writePostFlg v s)) 0"
    using Cons.prems by (simp add: writePostFlg_bit0)
  then show ?case using Cons.IH by simp
qed


theorem writePostFlg_bit0_sticky_witness:
  "bit (postFlg (demo9\<lparr>postFlg := 1\<rparr>)) 0 \<and>
   bit (postFlg (writePostFlgSeq [0, 2, 0] (demo9\<lparr>postFlg := 1\<rparr>))) 0 \<and>
   bit (postFlg (writePostFlgSeq [0, 2, 0] (demo7\<lparr>postFlg := 1\<rparr>))) 0"
proof -
  have h9: "bit (postFlg (demo9\<lparr>postFlg := 1\<rparr>)) 0" by simp
  have h7: "bit (postFlg (demo7\<lparr>postFlg := 1\<rparr>)) 0" by simp
  show ?thesis
    using h9 writePostFlg_bit0_sticky [OF h9, of "[0, 2, 0]"]
      writePostFlg_bit0_sticky [OF h7, of "[0, 2, 0]"] by simp
qed

section \<open>Bank switching\<close>

text \<open>
  C4: for every call of setCpsr in which bits 0 to 4 of the value differ from the
  current mode: if the new mode is one of the seven modes of the table, slots 8 to 14
  designate the cells the table gives for it, so that reads and writes of R8 to R14
  go to those cells, and \<^verbatim>\<open>spsr\<close> designates the SPSR the table gives (none in User and
  System); for every other mode value the bindings of the slots and \<^verbatim>\<open>spsr\<close> are
  unchanged.
\<close>

theorem setCpsr_rebinds:
  assumes "value AND 0x1F \<noteq> cpsr s AND 0x1F"
  shows "(\<forall>m. value AND 0x1F = modeCode m \<longrightarrow>
            (\<forall>i\<in>{8..14}.
               registers (snd (setCpsr E value save co s)) i = specBank m i \<and>
               getReg (snd (setCpsr E value save co s)) i =
                 cellRead (snd (setCpsr E value save co s)) (specBank m i) \<and>
               (\<forall>x. setReg i x (snd (setCpsr E value save co s)) =
                 cellWrite (specBank m i) x (snd (setCpsr E value save co s)))) \<and>
            spsr (snd (setCpsr E value save co s)) = specSpsr m) \<and>
         ((\<forall>m. value AND 0x1F \<noteq> modeCode m) \<longrightarrow>
            registers (snd (setCpsr E value save co s)) = registers s \<and>
            spsr (snd (setCpsr E value save co s)) = spsr s)"
  using assms
  by (auto simp add: setCpsr_registers setCpsr_spsr swapBanks_valid swapBanks_invalid
      getReg_def setReg_def)

theorem setCpsr_rebinds_witness:
  "(0x11 :: u32) AND 0x1F \<noteq> cpsr demo9 AND 0x1F \<and>
   registers (snd (setCpsr demoExt 0x11 False demoCore demo9)) 13 = Fiq 5 \<and>
   spsr (snd (setCpsr demoExt 0x11 False demoCore demo9)) = Some SpsrFiq \<and>
   (\<forall>m. (0x05 :: u32) AND 0x1F \<noteq> modeCode m) \<and>
   registers (snd (setCpsr demoExt 0x05 False demoCore demo9)) = registers demo9 \<and>
   spsr (snd (setCpsr demoExt 0x05 False demoCore demo9)) = None"
proof -
  have d1: "(0x11 :: u32) AND 0x1F \<noteq> cpsr demo9 AND 0x1F" by (simp add: demo_defs)
  have d2: "(0x05 :: u32) AND 0x1F \<noteq> cpsr demo9 AND 0x1F" by (simp add: demo_defs)
  have m1: "(0x11 :: u32) AND 0x1F = modeCode FIQ" by simp
  have m2: "\<forall>m. (0x05 :: u32) AND 0x1F \<noteq> modeCode m"
  proof
    fix m show "(0x05 :: u32) AND 0x1F \<noteq> modeCode m" by (cases m) simp_all
  qed
  have i: "(13::nat) \<in> {8..14}" by simp
  from setCpsr_rebinds [OF d1, of demoExt False demoCore] m1 i
  have "registers (snd (setCpsr demoExt 0x11 False demoCore demo9)) 13 = specBank FIQ 13 \<and>
        spsr (snd (setCpsr demoExt 0x11 False demoCore demo9)) = specSpsr FIQ"
    by blast
  moreover from setCpsr_rebinds [OF d2, of demoExt False demoCore] m2
  have "registers (snd (setCpsr demoExt 0x05 False demoCore demo9)) = registers demo9 \<and>
        spsr (snd (setCpsr demoExt 0x05 False demoCore demo9)) = spsr demo9"
    by blast
  ultimately show ?thesis using d1 m2 by (simp add: specBank_def demo_defs)
qed


section \<open>Pipeline refill\<close>

text \<open>
  C5: after flushPipeline, in THUMB state (CPSR bit 5 set) the PC is the old PC with
  bit 0 cleared plus 2, and the two pipeline slots hold the 16-bit reads at PC - 2 and
  PC; in ARM state the PC is the old PC with bits 0 and 1 cleared plus 4, and the
  slots hold the 32-bit reads at PC - 4 and PC. The reads are issued with the CPU's
  own id.
\<close>

theorem flushPipeline_refill:
  "(cpsr s AND BIT 5 \<noteq> 0 \<longrightarrow>
      getReg (flushPipeline co s) 15 = (getReg s 15 AND NOT 1) + 2 \<and>
      \<not> bit (getReg (flushPipeline co s) 15) 0 \<and>
      pipeline (flushPipeline co s) 0 =
        ucast (memRead16 co (cpu s) (getReg (flushPipeline co s) 15 - 2)) \<and>
      pipeline (flushPipeline co s) 1 =
        ucast (memRead16 co (cpu s) (getReg (flushPipeline co s) 15))) \<and>
   (cpsr s AND BIT 5 = 0 \<longrightarrow>
      getReg (flushPipeline co s) 15 = (getReg s 15 AND NOT 3) + 4 \<and>
      getReg (flushPipeline co s) 15 AND 3 = 0 \<and>
      pipeline (flushPipeline co s) 0 =
        memRead32 co (cpu s) (getReg (flushPipeline co s) 15 - 4) \<and>
      pipeline (flushPipeline co s) 1 =
        memRead32 co (cpu s) (getReg (flushPipeline co s) 15))"
  using word_aligned2 [of "getReg s 15"] word_aligned4 [of "getReg s 15"]
  by (simp add: flushPipeline_def Let_def)

theorem flushPipeline_refill_witness:
  "cpsr (demo7\<lparr>cpsr := 0x3F, registersUsr := (\<lambda>i. 0x1001)\<rparr>) AND BIT 5 \<noteq> 0 \<and>
   getReg (flushPipeline demoCore (demo7\<lparr>cpsr := 0x3F, registersUsr := (\<lambda>i. 0x1001)\<rparr>)) 15 = 0x1002 \<and>
   pipeline (flushPipeline demoCore (demo7\<lparr>cpsr := 0x3F, registersUsr := (\<lambda>i. 0x1001)\<rparr>)) 0 = 0x1000 \<and>
   pipeline (flushPipeline demoCore (demo7\<lparr>cpsr := 0x3F, registersUsr := (\<lambda>i. 0x1001)\<rparr>)) 1 = 0x1002 \<and>
   cpsr (demo7\<lparr>cpsr := 0x1F, registersUsr := (\<lambda>i. 0x1002)\<rparr>) AND BIT 5 = 0 \<and>
   getReg (flushPipeline demoCore (demo7\<lparr>cpsr := 0x1F, registersUsr := (\<lambda>i. 0x1002)\<rparr>)) 15 = 0x1004 \<and>
   pipeline (flushPipeline demoCore (demo7\<lparr>cpsr := 0x1F, registersUsr := (\<lambda>i. 0x1002)\<rparr>)) 0 = 0x1000 \<and>
   pipeline (flushPipeline demoCore (demo7\<lparr>cpsr := 0x1F, registersUsr := (\<lambda>i. 0x1002)\<rparr>)) 1 = 0x1004"
proof -
  let ?t = "demo7\<lparr>cpsr := 0x3F, registersUsr := (\<lambda>i. 0x1001)\<rparr>"
  let ?a = "demo7\<lparr>cpsr := 0x1F, registersUsr := (\<lambda>i. 0x1002)\<rparr>"
  have ht: "cpsr ?t AND BIT 5 \<noteq> 0" by (simp add: BIT_def)
  have ha: "cpsr ?a AND BIT 5 = 0" by (simp add: BIT_def)
  have rt: "getReg ?t 15 = 0x1001" by (simp add: getReg_def demo_defs)
  have ra: "getReg ?a 15 = 0x1002" by (simp add: getReg_def demo_defs)
  have ct: "cpu ?t" and ca: "cpu ?a" by (simp_all add: demo_defs)
  from flushPipeline_refill [of ?t demoCore] ht rt ct
  have "getReg (flushPipeline demoCore ?t) 15 = 0x1002 \<and>
        pipeline (flushPipeline demoCore ?t) 0 = 0x1000 \<and>
        pipeline (flushPipeline demoCore ?t) 1 = 0x1002"
    by (simp add: demoCore_def)
  moreover from flushPipeline_refill [of ?a demoCore] ha ra ca
  have "getReg (flushPipeline demoCore ?a) 15 = 0x1004 \<and>
        pipeline (flushPipeline demoCore ?a) 0 = 0x1000 \<and>
        pipeline (flushPipeline demoCore ?a) 1 = 0x1004"
    by (simp add: demoCore_def)
  ultimately show ?thesis using ht ha by simp
qed

section \<open>Waking a halted CPU\<close>

text \<open>
  C7: with IME = 0 and bit 0 of IE set, whatever the CPSR, sendInterrupt(0) on the
  ARM7 sets bit 0 of IF, clears bit 0 of \<^verbatim>\<open>halted\<close> and leaves the Core as it was (no
  task is scheduled, whatever \<^verbatim>\<open>schedule\<close> does); on the ARM9 it only sets bit 0 of IF:
  \<^verbatim>\<open>halted\<close> keeps its value and nothing is scheduled.
\<close>

theorem sendInterrupt_no_ime:
  assumes "ime s = 0" and "bit (ie s) 0"
  shows "(cpu s \<longrightarrow>
            sendInterrupt E 0 co s = (co, s\<lparr>irf := irf s OR 1, halted := halted s AND NOT 1\<rparr>) \<and>
            \<not> bit (halted (snd (sendInterrupt E 0 co s))) 0) \<and>
         (\<not> cpu s \<longrightarrow>
            sendInterrupt E 0 co s = (co, s\<lparr>irf := irf s OR 1\<rparr>) \<and>
            halted (snd (sendInterrupt E 0 co s)) = halted s)"
proof -
  have "bit (ie s AND (irf s OR 1)) 0" using assms by (simp add: bit_simps)
  then have "ie s AND (irf s OR 1) \<noteq> 0" by auto
  then show ?thesis using assms by (simp add: sendInterrupt_def Let_def BIT_def bit_simps)
qed

theorem sendInterrupt_no_ime_witness:
  "ime (demo7\<lparr>halted := 1, ie := 1, cpsr := 0xD3\<rparr>) = 0 \<and>
   bit (ie (demo7\<lparr>halted := 1, ie := 1, cpsr := 0xD3\<rparr>)) 0 \<and>
   sendInterrupt demoExt 0 demoCore (demo7\<lparr>halted := 1, ie := 1, cpsr := 0xD3\<rparr>) =
     (demoCore, demo7\<lparr>halted := 0, ie := 1, cpsr := 0xD3, irf := 1\<rparr>) \<and>
   sendInterrupt demoExt 0 demoCore (demo9\<lparr>halted := 1, ie := 1, cpsr := 0xD3\<rparr>) =
     (demoCore, demo9\<lparr>halted := 1, ie := 1, cpsr := 0xD3, irf := 1\<rparr>) \<and>
   bit (halted (snd (sendInterrupt demoExt 0 demoCore (demo9\<lparr>halted := 1, ie := 1, cpsr := 0xD3\<rparr>)))) 0"
proof -
  let ?s7 = "demo7\<lparr>halted := 1, ie := 1, cpsr := 0xD3\<rparr>"
  let ?s9 = "demo9\<lparr>halted := 1, ie := 1, cpsr := 0xD3\<rparr>"
  have h7: "ime ?s7 = 0" "bit (ie ?s7) 0" by (simp_all add: demo_defs)
  have h9: "ime ?s9 = 0" "bit (ie ?s9) 0" by (simp_all add: demo_defs)
  have c: "cpu ?s7" "\<not> cpu ?s9" by (simp_all add: demo_defs)
  from sendInterrupt_no_ime [OF h7, of demoExt demoCore] sendInterrupt_no_ime [OF h9, of demoExt demoCore] c h7
  show ?thesis by (simp add: demo_defs)
qed

section \<open>The register-file invariant\<close>

lemma setReg_fields [simp]:
  "spsr (setReg i v s) = spsr s" "spsrIrq (setReg i v s) = spsrIrq s"
  "spsrSvc (setReg i v s) = spsrSvc s"
  "halted (setReg i v s) = halted s" "ime (setReg i v s) = ime s"
  "ie (setReg i v s) = ie s" "irf (setReg i v s) = irf s"
  "postFlg (setReg i v s) = postFlg s" "bios (setReg i v s) = bios s"
  by (cases "registers s i"; simp add: setReg_def)+

lemma flushPipeline_fields [simp]:
  "cpu (flushPipeline co s) = cpu s" "cpsr (flushPipeline co s) = cpsr s"
  "registers (flushPipeline co s) = registers s"
  "spsr (flushPipeline co s) = spsr s" "spsrIrq (flushPipeline co s) = spsrIrq s"
  "spsrSvc (flushPipeline co s) = spsrSvc s"
  "halted (flushPipeline co s) = halted s" "ime (flushPipeline co s) = ime s"
  "ie (flushPipeline co s) = ie s" "irf (flushPipeline co s) = irf s"
  "postFlg (flushPipeline co s) = postFlg s" "bios (flushPipeline co s) = bios s"
  by (simp_all add: flushPipeline_def Let_def)

lemma flushPipeline_getReg15:
  "getReg (flushPipeline co s) 15 =
     (if cpsr s AND BIT 5 \<noteq> 0 then (getReg s 15 AND NOT 1) + 2 else (getReg s 15 AND NOT 3) + 4)"
  by (simp add: flushPipeline_def Let_def)

lemma modeOf_Some: "modeOf v = Some m \<longleftrightarrow> v = modeCode m"
  by (cases m) (auto simp add: modeOf_def)

lemma modeOf_None: "modeOf v = None \<longleftrightarrow> (\<forall>m. v \<noteq> modeCode m)"
proof
  assume "modeOf v = None"
  then show "\<forall>m. v \<noteq> modeCode m" using modeOf_Some [of v] by auto
next
  assume a: "\<forall>m. v \<noteq> modeCode m"
  show "modeOf v = None"
  proof (cases "modeOf v")
    case None then show ?thesis .
  next
    case (Some m) then show ?thesis using a modeOf_Some [of v m] by simp
  qed
qed

lemma modeOf_modeCode [simp]: "modeOf (modeCode m) = Some m"
  by (cases m) (simp_all add: modeOf_def)

lemma modeCode_inj [simp]: "modeCode a = modeCode b \<longleftrightarrow> a = b"
  by (cases a; cases b; simp)

lemma bankInv_iff:
  "bankInv s \<longleftrightarrow>
     (\<forall>i<8. registers s i = Usr i) \<and> registers s 15 = Usr 15 \<and>
     (\<forall>m. cpsr s AND 0x1F = modeCode m \<longrightarrow>
        (\<forall>i. 8 \<le> i \<and> i \<le> 14 \<longrightarrow> registers s i = specBank m i) \<and> spsr s = specSpsr m)"
proof -
  have a: "\<And>P. list_all P [0..<8] \<longleftrightarrow> (\<forall>i<8::nat. P i)"
    by (auto simp add: list_all_iff)
  have b: "\<And>P. list_all P [8..<15] \<longleftrightarrow> (\<forall>i::nat. 8 \<le> i \<and> i \<le> 14 \<longrightarrow> P i)"
  proof -
    fix P :: "nat \<Rightarrow> bool"
    have c: "\<And>x::nat. x < 15 \<longleftrightarrow> x \<le> 14" by arith
    show "list_all P [8..<15] \<longleftrightarrow> (\<forall>i::nat. 8 \<le> i \<and> i \<le> 14 \<longrightarrow> P i)"
      unfolding list_all_iff set_upt Ball_def atLeastLessThan_iff c ..
  qed
  show ?thesis
  proof (cases "modeOf (cpsr s AND 0x1F)")
    case None
    then have n: "\<forall>m. cpsr s AND 0x1F \<noteq> modeCode m" by (simp add: modeOf_None)
    show ?thesis unfolding bankInv_def a b None using n by simp
  next
    case (Some m)
    then have "cpsr s AND 0x1F = modeCode m" by (simp add: modeOf_Some)
    then show ?thesis unfolding bankInv_def a b by simp
  qed
qed

lemma bankInv_Interpreter:
  assumes "modeOf (cpsr raw AND 0x1F) = None"
  shows "bankInv (Interpreter c raw)"
  using assms by (simp add: bankInv_iff Interpreter_def modeOf_None)

lemma bankInv_setCpsr:
  assumes "bankInv s"
  shows "bankInv (snd (setCpsr E value save co s))"
proof (cases "value AND 0x1F = cpsr s AND 0x1F")
  case True
  have "snd (setCpsr E value save co s) =
          (if save then (case spsr s of None \<Rightarrow> s | Some p \<Rightarrow> psrWrite p (cpsr s) s) else s)\<lparr>cpsr := value\<rparr>"
    using True by (simp add: setCpsr_snd)
  then show ?thesis using assms True
    by (auto simp add: bankInv_iff split: option.splits)
next
  case False
  show ?thesis
  proof (cases "modeOf (value AND 0x1F)")
    case None
    then have inv: "\<forall>m. value AND 0x1F \<noteq> modeCode m" by (simp add: modeOf_None)
    show ?thesis using assms False inv
      by (auto simp add: bankInv_iff setCpsr_snd swapBanks_invalid Let_def split: option.splits)
  next
    case (Some m)
    then have v: "value AND 0x1F = modeCode m" by (simp add: modeOf_Some)
    show ?thesis using assms False v
      by (auto simp add: bankInv_iff setCpsr_snd swapBanks_valid Let_def split: option.splits)
  qed
qed

lemma setCpsr_cpsr [simp]: "cpsr (snd (setCpsr E value save co s)) = value"
  by (simp add: setCpsr_snd Let_def)

lemma swapBanks_cpu [simp]: "cpu (snd (swapBanks value co s)) = cpu s"
  by (simp add: swapBanks_def Let_def)

lemma swapBanks_registersUsr [simp]: "registersUsr (snd (swapBanks value co s)) = registersUsr s"
  by (simp add: swapBanks_def Let_def)

lemma setCpsr_cpu [simp]: "cpu (snd (setCpsr E value save co s)) = cpu s"
  by (simp add: setCpsr_snd Let_def split: option.splits)

lemma registersUsr_psrWrite [simp]: "registersUsr (psrWrite p v s) = registersUsr s"
  by (cases p) simp_all

lemma setCpsr_registersUsr [simp]:
  "registersUsr (snd (setCpsr E value save co s)) = registersUsr s"
  by (simp add: setCpsr_snd Let_def split: option.splits)

lemma setCpsr_fst_masked:
  assumes "value AND BIT 7 \<noteq> 0"
  shows "fst (setCpsr E value save co s) =
           fst (if value AND 0x1F \<noteq> cpsr s AND 0x1F then swapBanks value co s else (co, s))"
  using assms
  by (cases "swapBanks value co s") (simp add: setCpsr_def Let_def pending_def split: option.splits)

lemma setCpsr_fst_masked_valid:
  assumes "value AND BIT 7 \<noteq> 0" and "value AND 0x1F = modeCode m"
  shows "fst (setCpsr E value save co s) = co"
  using assms by (simp add: setCpsr_fst_masked swapBanks_valid)

lemma bankInv_updates [simp]:
  "bankInv (s\<lparr>registersUsr := a\<rparr>) = bankInv s"
  "bankInv (s\<lparr>registersIrq := a\<rparr>) = bankInv s"
  "bankInv (s\<lparr>registersSvc := a\<rparr>) = bankInv s"
  "bankInv (s\<lparr>pipeline := p\<rparr>) = bankInv s"
  "bankInv (s\<lparr>halted := h\<rparr>) = bankInv s"
  "bankInv (s\<lparr>ime := m\<rparr>) = bankInv s"
  "bankInv (s\<lparr>ie := e\<rparr>) = bankInv s"
  "bankInv (s\<lparr>irf := f\<rparr>) = bankInv s"
  "bankInv (s\<lparr>postFlg := g\<rparr>) = bankInv s"
  by (simp_all add: bankInv_iff)

lemma bankInv_flushPipeline [simp]: "bankInv (flushPipeline co s) = bankInv s"
  by (simp add: bankInv_iff)

lemma bankInv_init:
  assumes "bankInv s"
  shows "bankInv (snd (init E co s))"
  using assms by (simp add: init_def split_beta Let_def bankInv_setCpsr)

lemma bankInv_directBoot:
  assumes "bankInv s"
  shows "bankInv (snd (directBoot E co s))"
  using assms by (simp add: directBoot_def split_beta Let_def bankInv_setCpsr)

lemma bankInv_sendInterrupt:
  assumes "bankInv s"
  shows "bankInv (snd (sendInterrupt E b co s))"
  using assms by (simp add: sendInterrupt_def Let_def)

lemma bankInv_writeIrf: "bankInv (writeIrf msk value s) = bankInv s"
  by (simp add: writeIrf_def)

lemma bankInv_writePostFlg: "bankInv (writePostFlg value s) = bankInv s"
  by (simp add: writePostFlg_def Let_def)

section \<open>Cold boot\<close>

text \<open>
  C8: after init, from any state that satisfies the register-file invariant: the CPSR
  is 0x000000D3, R15 is 0xFFFF0000 + 4 on the ARM9 and 0 + 4 on the ARM7, \<^verbatim>\<open>spsr\<close>
  designates the Supervisor SPSR, and IME, IE, IF and POSTFLG are zero. The call
  schedules nothing and logs nothing: the Core is unchanged.
\<close>

theorem init_cold_boot:
  assumes "bankInv s"
  shows "fst (init E co s) = co \<and>
         cpsr (snd (init E co s)) = 0x000000D3 \<and>
         (\<not> cpu s \<longrightarrow> getReg (snd (init E co s)) 15 = 0xFFFF0000 + 4) \<and>
         (cpu s \<longrightarrow> getReg (snd (init E co s)) 15 = 0x00000000 + 4) \<and>
         spsr (snd (init E co s)) = Some SpsrSvc \<and>
         ime (snd (init E co s)) = 0 \<and> ie (snd (init E co s)) = 0 \<and>
         irf (snd (init E co s)) = 0 \<and> postFlg (snd (init E co s)) = 0"
proof -
  define s1 where "s1 = snd (setCpsr E 0x000000D3 False co s)"
  have v: "(0x000000D3 :: u32) AND 0x1F = modeCode Supervisor" by simp
  have co1: "fst (setCpsr E 0x000000D3 False co s) = co"
    by (rule setCpsr_fst_masked_valid [OF _ v]) (simp add: BIT_def)
  have inv1: "bankInv s1" unfolding s1_def using assms by (rule bankInv_setCpsr)
  have c1: "cpsr s1 = 0x000000D3" and u1: "cpu s1 = cpu s" by (simp_all add: s1_def)
  from inv1 have r15: "registers s1 15 = Usr 15" by (simp add: bankInv_iff)
  from inv1 have "\<forall>m. cpsr s1 AND 0x1F = modeCode m \<longrightarrow> spsr s1 = specSpsr m"
    by (simp add: bankInv_iff)
  from this [rule_format, of Supervisor] have sp: "spsr s1 = Some SpsrSvc"
    by (simp add: c1)
  have arm: "cpsr s1 AND BIT 5 = 0" by (simp add: c1 BIT_def)
  have eq: "init E co s =
      (co, (flushPipeline co (s1\<lparr>registersUsr := (registersUsr s1)
              (15 := (if \<not> cpu s then 0xFFFF0000 else 0x00000000))\<rparr>))
            \<lparr>ime := 0, ie := 0, irf := 0, postFlg := 0\<rparr>)"
    using co1 u1 by (simp add: init_def s1_def split_beta Let_def)
  show ?thesis
    unfolding eq using c1 r15 sp arm
    by (simp add: getReg_def flushPipeline_def setReg_def Let_def)
qed

theorem init_cold_boot_witness:
  "bankInv demo9 \<and> bankInv demo7 \<and>
   cpsr (snd (init demoExt demoCore demo9)) = 0xD3 \<and>
   getReg (snd (init demoExt demoCore demo9)) 15 = 0xFFFF0004 \<and>
   getReg (snd (init demoExt demoCore demo7)) 15 = 4 \<and>
   spsr (snd (init demoExt demoCore demo9)) = Some SpsrSvc"
proof -
  have h9: "bankInv demo9" and h7: "bankInv demo7"
    by (simp_all add: bankInv_def demo_defs modeOf_def list_all_iff)
  have c: "\<not> cpu demo9" "cpu demo7" by (simp_all add: demo_defs)
  from init_cold_boot [OF h9, of demoExt demoCore] init_cold_boot [OF h7, of demoExt demoCore] c h9 h7
  show ?thesis by simp
qed

section \<open>Direct boot\<close>

text \<open>
  C10: directBoot reads the cartridge entry address with CPU id 0 on both CPUs: on the
  ARM9 from 0x27FFE24, on the ARM7 from 0x27FFE34. From any state that satisfies the
  register-file invariant, R12 and R14 end up holding the value the bus returns for
  that CPU-0 read, and R15, seeded with the same value, holds it word-aligned plus 4
  after the pipeline flush. The two pipeline reads that follow use the CPU's own id.
\<close>

theorem directBoot_entry_read:
  assumes "bankInv s"
  shows "(\<not> cpu s \<longrightarrow>
            getReg (snd (directBoot E co s)) 12 = memRead32 co False 0x27FFE24 \<and>
            getReg (snd (directBoot E co s)) 14 = memRead32 co False 0x27FFE24 \<and>
            getReg (snd (directBoot E co s)) 15 = (memRead32 co False 0x27FFE24 AND NOT 3) + 4) \<and>
         (cpu s \<longrightarrow>
            getReg (snd (directBoot E co s)) 12 = memRead32 co False 0x27FFE34 \<and>
            getReg (snd (directBoot E co s)) 14 = memRead32 co False 0x27FFE34 \<and>
            getReg (snd (directBoot E co s)) 15 = (memRead32 co False 0x27FFE34 AND NOT 3) + 4) \<and>
         pipeline (snd (directBoot E co s)) 0 =
           memRead32 co (cpu s) (getReg (snd (directBoot E co s)) 15 - 4) \<and>
         pipeline (snd (directBoot E co s)) 1 =
           memRead32 co (cpu s) (getReg (snd (directBoot E co s)) 15)"
proof -
  define e where "e = memRead32 co False (if cpu s then 0x27FFE34 else 0x27FFE24)"
  define s0 where "s0 =
    (if \<not> cpu s then
       s\<lparr>registersUsr := (registersUsr s)(13 := 0x03002F7C),
         registersIrq := (registersIrq s)(0 := 0x03003F80),
         registersSvc := (registersSvc s)(0 := 0x03003FC0)\<rparr>
     else
       s\<lparr>registersUsr := (registersUsr s)(13 := 0x0380FD80),
         registersIrq := (registersIrq s)(0 := 0x0380FF80),
         registersSvc := (registersSvc s)(0 := 0x0380FFC0)\<rparr>)"
  define s2 where "s2 = snd (setCpsr E 0x000000DF False co s0)"
  have inv0: "bankInv s0" using assms by (simp add: s0_def bankInv_iff)
  have u0: "cpu s0 = cpu s" by (simp add: s0_def)
  have v: "(0x000000DF :: u32) AND 0x1F = modeCode System" by simp
  have co2: "\<And>x. fst (setCpsr E 0x000000DF False co x) = co"
    by (rule setCpsr_fst_masked_valid [OF _ v]) (simp add: BIT_def)
  have inv2: "bankInv s2" unfolding s2_def using inv0 by (rule bankInv_setCpsr)
  have c2: "cpsr s2 = 0x000000DF" and u2: "cpu s2 = cpu s" by (simp_all add: s2_def u0)
  from inv2 have r15: "registers s2 15 = Usr 15" by (simp add: bankInv_iff)
  from inv2 have "\<forall>m. cpsr s2 AND 0x1F = modeCode m \<longrightarrow>
      (\<forall>i. 8 \<le> i \<and> i \<le> 14 \<longrightarrow> registers s2 i = specBank m i)"
    by (simp add: bankInv_iff)
  from this [rule_format, of System] have r12: "registers s2 12 = Usr 12"
    and r14: "registers s2 14 = Usr 14"
    by (simp_all add: c2 specBank_def)
  have arm: "cpsr s2 AND BIT 5 = 0" by (simp add: c2 BIT_def)
  have eq: "snd (directBoot E co s) =
      flushPipeline co (s2\<lparr>registersUsr := (registersUsr s2)(12 := e, 14 := e, 15 := e)\<rparr>)"
    by (simp add: directBoot_def s2_def s0_def e_def split_beta Let_def co2)
  show ?thesis
    unfolding eq using c2 r15 r12 r14 arm u2
    by (simp add: getReg_def flushPipeline_def setReg_def Let_def e_def)
qed

theorem directBoot_entry_read_witness:
  "bankInv demo9 \<and> bankInv demo7 \<and>
   getReg (snd (directBoot demoExt demoCore demo9)) 12 = 0x02000800 \<and>
   getReg (snd (directBoot demoExt demoCore demo9)) 15 = 0x02000804 \<and>
   memRead32 demoCore False 0x27FFE34 = 0x02380000 \<and>
   memRead32 demoCore True 0x27FFE34 = 0x027FFE34 \<and>
   getReg (snd (directBoot demoExt demoCore demo7)) 12 = 0x02380000 \<and>
   getReg (snd (directBoot demoExt demoCore demo7)) 14 = 0x02380000 \<and>
   getReg (snd (directBoot demoExt demoCore demo7)) 15 = 0x02380004 \<and>
   pipeline (snd (directBoot demoExt demoCore demo7)) 0 = 0x02380000"
proof -
  have h9: "bankInv demo9" and h7: "bankInv demo7"
    by (simp_all add: bankInv_def demo_defs modeOf_def list_all_iff)
  have c: "\<not> cpu demo9" "cpu demo7" by (simp_all add: demo_defs)
  have m: "memRead32 demoCore False 0x27FFE24 = 0x02000800"
    "memRead32 demoCore False 0x27FFE34 = 0x02380000"
    "memRead32 demoCore True 0x27FFE34 = 0x027FFE34"
    "memRead32 demoCore True 0x02380000 = 0x02380000"
    by (simp_all add: demoCore_def)
  from directBoot_entry_read [OF h9, of demoExt demoCore]
    directBoot_entry_read [OF h7, of demoExt demoCore] c h9 h7 m
  show ?thesis by simp
qed

section \<open>Interrupt delivery\<close>

lemma BIT_test: "(x AND BIT n \<noteq> 0) = bit (x :: 'a::len word) n"
  by (simp add: BIT_def bit_iff_and_push_bit_not_eq_0)

lemma pending_iff: "pending s \<longleftrightarrow> ime s \<noteq> 0 \<and> ie s AND irf s \<noteq> 0 \<and> \<not> bit (cpsr s) 7"
  by (simp add: pending_def BIT_test)

lemma irqCpsr_bits:
  fixes c :: u32
  shows "((c AND NOT 0x3F) OR BIT 7 OR 0x12) AND 0x1F = 0x12"
    and "((c AND NOT 0x3F) OR BIT 7 OR 0x12) AND BIT 5 = 0"
    and "bit ((c AND NOT 0x3F) OR BIT 7 OR 0x12) 7"
  by (simp_all add: BIT_def bit.conj_disj_distrib2 and.assoc bit_simps)

lemma swapBanks_cpsr [simp]: "cpsr (snd (swapBanks value co s)) = cpsr s"
  by (simp add: swapBanks_def Let_def)

lemma getReg_halted_update [simp]: "getReg (s\<lparr>halted := h\<rparr>) i = getReg s i"
  by (cases "registers s i") (simp_all add: getReg_def)

lemma setCpsr_save_spsrIrq:
  assumes "spsr (snd (setCpsr E value True co s)) = Some SpsrIrq"
  shows "spsrIrq (snd (setCpsr E value True co s)) = cpsr s"
proof -
  define sw where
    "sw = snd (if value AND 0x1F \<noteq> cpsr s AND 0x1F then swapBanks value co s else (co, s))"
  have "spsr sw = Some SpsrIrq" using assms by (simp add: setCpsr_spsr sw_def)
  moreover have "cpsr sw = cpsr s" by (simp add: sw_def)
  ultimately show ?thesis by (simp add: setCpsr_snd sw_def [symmetric] Let_def)
qed

lemma exception_unfold:
  assumes "\<not> (bios t \<and> (cpu t \<or> exceptionAddr co \<noteq> 0))"
    and "setCpsr E ((cpsr t AND NOT 0x3F) OR BIT 7 OR 0x12) True co t = (co1, s1)"
    and "spsr s1 = Some p"
  shows "exception E 0x18 co t =
           Some (3, co1, flushPipeline co1
             (setReg 15 ((if cpu s1 then 0 else exceptionAddr co1) + 0x18)
                (setReg 14 (getReg s1 15 + (if psrRead s1 p AND BIT 5 \<noteq> 0 then 2 else 0)) s1)))"
proof -
  have nb: "(bios t \<and> (cpu t \<or> exceptionAddr co \<noteq> 0)) = False" using assms(1) by blast
  show ?thesis using assms(2,3) by (simp add: exception_def nb modes_def Let_def)
qed

lemma exception_irq:
  assumes nb: "\<not> (bios t \<and> (cpu t \<or> exceptionAddr co \<noteq> 0))" and inv: "bankInv t"
  shows "\<exists>t'. exception E 0x18 co t = Some (3, co, t') \<and>
           cpsr t' = (cpsr t AND NOT 0x3F) OR BIT 7 OR 0x12 \<and>
           getReg t' 15 = (((if cpu t then 0 else exceptionAddr co) + 0x18) AND NOT 3) + 4 \<and>
           spsrIrq t' = cpsr t"
proof -
  define new where "new = (cpsr t AND NOT 0x3F) OR BIT 7 OR 0x12"
  define s1 where "s1 = snd (setCpsr E new True co t)"
  have v: "new AND 0x1F = modeCode IRQ"
    unfolding new_def modeCode.simps by (rule irqCpsr_bits)
  have i7: "new AND BIT 7 \<noteq> 0"
    unfolding new_def BIT_test by (rule irqCpsr_bits)
  have arm: "new AND BIT 5 = 0"
    unfolding new_def by (rule irqCpsr_bits)
  have co1: "fst (setCpsr E new True co t) = co"
    by (rule setCpsr_fst_masked_valid [OF i7 v])
  have inv1: "bankInv s1" unfolding s1_def using inv by (rule bankInv_setCpsr)
  have c1: "cpsr s1 = new" and u1: "cpu s1 = cpu t" by (simp_all add: s1_def)
  from inv1 have "\<forall>m. cpsr s1 AND 0x1F = modeCode m \<longrightarrow> spsr s1 = specSpsr m"
    by (simp add: bankInv_iff)
  from this [rule_format, of IRQ] have sp: "spsr s1 = Some SpsrIrq"
    using v by (simp add: c1)
  have sv: "spsrIrq s1 = cpsr t"
    unfolding s1_def by (rule setCpsr_save_spsrIrq) (use sp in \<open>simp add: s1_def\<close>)
  define t' where "t' = flushPipeline co
     (setReg 15 ((if cpu t then 0 else exceptionAddr co) + 0x18)
        (setReg 14 (getReg s1 15 + (if psrRead s1 SpsrIrq AND BIT 5 \<noteq> 0 then 2 else 0)) s1))"
  have pr: "setCpsr E ((cpsr t AND NOT 0x3F) OR BIT 7 OR 0x12) True co t = (co, s1)"
    using co1 unfolding s1_def new_def by (metis prod.collapse)
  have "exception E 0x18 co t = Some (3, co, t')"
    unfolding t'_def using exception_unfold [OF nb pr sp] u1 by simp
  moreover have "cpsr t' = new" by (simp add: t'_def c1)
  moreover have "getReg t' 15 = (((if cpu t then 0 else exceptionAddr co) + 0x18) AND NOT 3) + 4"
    using arm by (simp add: t'_def flushPipeline_getReg15 c1)
  moreover have "spsrIrq t' = cpsr t" by (simp add: t'_def sv)
  ultimately show ?thesis by (simp add: new_def)
qed

text \<open>
  C1 (as the code has it): with IME set, bit 0 of IE set and CPSR.I clear,
  sendInterrupt(0) sets bit 0 of IF and calls \<^verbatim>\<open>schedule\<close> once, with the interrupt task
  of this CPU and delay 2 on the ARM7 in NDS mode, delay 1 otherwise (so 1 on the ARM9).
  When the task runs in a state where the pending condition holds, the register-file
  invariant holds and the exception is not handed to the HLE BIOS (\<^verbatim>\<open>bios\<close> is null, or
  the CPU is the ARM9 and the CP15 exception base is 0): the mode bits of the CPSR are
  0x12, CPSR.I is set, SPSR_irq holds the CPSR from before the interrupt, bit 0 of
  \<^verbatim>\<open>halted\<close> is clear, nothing is scheduled, and R15 is the vector address
  (exception base + 0x18, the base being 0 on the ARM7) word-aligned plus 4, because
  the pipeline is flushed after the jump.
\<close>

theorem interrupt_delivery:
  "(ime s \<noteq> 0 \<and> bit (ie s) 0 \<and> \<not> bit (cpsr s) 7 \<longrightarrow>
      sendInterrupt E 0 co s =
        (schedule E (Task (InterruptTask (cpu s)) (if cpu s \<and> \<not> gbaMode co then 2 else 1)) co,
         s\<lparr>irf := irf s OR 1\<rparr>)) \<and>
   (pending t \<and> \<not> (bios t \<and> (cpu t \<or> exceptionAddr ct \<noteq> 0)) \<and> bankInv t \<longrightarrow>
      (case interrupt E ct t of
         None \<Rightarrow> False
       | Some (c', t') \<Rightarrow>
           c' = ct \<and> cpsr t' AND 0x1F = 0x12 \<and> bit (cpsr t') 7 \<and>
           getReg t' 15 = (((if cpu t then 0 else exceptionAddr ct) + 0x18) AND NOT 3) + 4 \<and>
           spsrIrq t' = cpsr t \<and> \<not> bit (halted t') 0))"
proof (intro conjI impI)
  assume a: "ime s \<noteq> 0 \<and> bit (ie s) 0 \<and> \<not> bit (cpsr s) 7"
  then have "bit (ie s AND (irf s OR 1)) 0" by (simp add: bit_simps)
  then have "ie s AND (irf s OR 1) \<noteq> 0" by auto
  then show "sendInterrupt E 0 co s =
        (schedule E (Task (InterruptTask (cpu s)) (if cpu s \<and> \<not> gbaMode co then 2 else 1)) co,
         s\<lparr>irf := irf s OR 1\<rparr>)"
    using a by (simp add: sendInterrupt_def Let_def BIT_test scheduleInterrupt_def) (simp add: BIT_def)
next
  assume b: "pending t \<and> \<not> (bios t \<and> (cpu t \<or> exceptionAddr ct \<noteq> 0)) \<and> bankInv t"
  then have nb: "\<not> (bios t \<and> (cpu t \<or> exceptionAddr ct \<noteq> 0))" and inv: "bankInv t"
    by simp_all
  from exception_irq [OF nb inv, of E] obtain t' where
    ex: "exception E 0x18 ct t = Some (3, ct, t')"
    and c: "cpsr t' = (cpsr t AND NOT 0x3F) OR BIT 7 OR 0x12"
    and r: "getReg t' 15 = (((if cpu t then 0 else exceptionAddr ct) + 0x18) AND NOT 3) + 4"
    and sv: "spsrIrq t' = cpsr t"
    by blast
  have i: "interrupt E ct t = Some (ct, t'\<lparr>halted := halted t' AND NOT (BIT 0)\<rparr>)"
    using b ex by (simp add: interrupt_def)
  have m: "cpsr t' AND 0x1F = 0x12" and i7: "bit (cpsr t') 7"
    unfolding c by (rule irqCpsr_bits)+
  have h: "\<not> bit (halted t' AND NOT (BIT 0)) 0" by (simp add: BIT_def bit_simps)
  show "case interrupt E ct t of
         None \<Rightarrow> False
       | Some (c', t') \<Rightarrow>
           c' = ct \<and> cpsr t' AND 0x1F = 0x12 \<and> bit (cpsr t') 7 \<and>
           getReg t' 15 = (((if cpu t then 0 else exceptionAddr ct) + 0x18) AND NOT 3) + 4 \<and>
           spsrIrq t' = cpsr t \<and> \<not> bit (halted t') 0"
    unfolding i using m i7 r sv h by simp
qed

lemmas run_defs = sendInterrupt_def interrupt_def exception_def setCpsr_def swapBanks_def
  flushPipeline_def scheduleInterrupt_def pending_def modes_def getReg_def setReg_def
  scheduleSpec_def BIT_def Let_def

theorem interrupt_delivery_witness:
  "sendInterrupt demoExt 0 demoCore (demo9\<lparr>ime := 1, ie := 1, cpsr := 0x1F\<rparr>) =
     (demoCore\<lparr>tasks := [Task (InterruptTask False) 101, Task (ForeignTask 0) 200]\<rparr>,
      demo9\<lparr>ime := 1, ie := 1, cpsr := 0x1F, irf := 1\<rparr>) \<and>
   sendInterrupt demoExt 0 demoCore (demo7\<lparr>ime := 1, ie := 1, cpsr := 0x1F\<rparr>) =
     (demoCore\<lparr>tasks := [Task (InterruptTask True) 102, Task (ForeignTask 0) 200]\<rparr>,
      demo7\<lparr>ime := 1, ie := 1, cpsr := 0x1F, irf := 1\<rparr>) \<and>
   pending (demo9\<lparr>ime := 1, ie := 1, cpsr := 0x1F, irf := 1, halted := 1\<rparr>) \<and>
   bankInv (demo9\<lparr>ime := 1, ie := 1, cpsr := 0x1F, irf := 1, halted := 1\<rparr>) \<and>
   (case interrupt demoExt demoCore (demo9\<lparr>ime := 1, ie := 1, cpsr := 0x1F, irf := 1, halted := 1\<rparr>) of
      None \<Rightarrow> False
    | Some (c', t') \<Rightarrow>
        c' = demoCore \<and> cpsr t' AND 0x1F = 0x12 \<and> bit (cpsr t') 7 \<and>
        getReg t' 15 = 0xFFFF001C \<and> spsrIrq t' = 0x1F \<and> \<not> bit (halted t') 0)"
proof -
  let ?s9 = "demo9\<lparr>ime := 1, ie := 1, cpsr := 0x1F\<rparr>"
  let ?s7 = "demo7\<lparr>ime := 1, ie := 1, cpsr := 0x1F\<rparr>"
  let ?t = "demo9\<lparr>ime := 1, ie := 1, cpsr := 0x1F, irf := 1, halted := 1\<rparr>"
  have a9: "ime ?s9 \<noteq> 0 \<and> bit (ie ?s9) 0 \<and> \<not> bit (cpsr ?s9) 7" by (simp add: demo_defs)
  have a7: "ime ?s7 \<noteq> 0 \<and> bit (ie ?s7) 0 \<and> \<not> bit (cpsr ?s7) 7" by (simp add: demo_defs)
  have p: "pending ?t" by (simp add: pending_iff demo_defs)
  have inv: "bankInv ?t" by (simp add: bankInv_def demo_defs modeOf_def list_all_iff specBank_def)
  have b: "pending ?t \<and> \<not> (bios ?t \<and> (cpu ?t \<or> exceptionAddr demoCore \<noteq> 0)) \<and> bankInv ?t"
    using p inv by (simp add: demo_defs)
  have s9: "sendInterrupt demoExt 0 demoCore ?s9 =
     (demoCore\<lparr>tasks := [Task (InterruptTask False) 101, Task (ForeignTask 0) 200]\<rparr>,
      demo9\<lparr>ime := 1, ie := 1, cpsr := 0x1F, irf := 1\<rparr>)"
    using interrupt_delivery [of ?s9 demoExt demoCore ?t demoCore] a9
    by (simp add: demo_defs scheduleSpec_def)
  have s7: "sendInterrupt demoExt 0 demoCore ?s7 =
     (demoCore\<lparr>tasks := [Task (InterruptTask True) 102, Task (ForeignTask 0) 200]\<rparr>,
      demo7\<lparr>ime := 1, ie := 1, cpsr := 0x1F, irf := 1\<rparr>)"
    using interrupt_delivery [of ?s7 demoExt demoCore ?t demoCore] a7
    by (simp add: demo_defs scheduleSpec_def)
  have c: "cpu ?t = False" "exceptionAddr demoCore = 0xFFFF0000" "cpsr ?t = 0x1F"
    by (simp_all add: demo_defs)
  from interrupt_delivery [of ?s9 demoExt demoCore ?t demoCore] b
  have "case interrupt demoExt demoCore ?t of
      None \<Rightarrow> False
    | Some (c', t') \<Rightarrow>
        c' = demoCore \<and> cpsr t' AND 0x1F = 0x12 \<and> bit (cpsr t') 7 \<and>
        getReg t' 15 = 0xFFFF001C \<and> spsrIrq t' = 0x1F \<and> \<not> bit (halted t') 0"
    unfolding c by (auto split: option.splits)
  with s9 s7 p inv show ?thesis by simp
qed

text \<open>
  The claim as written gives R15 = exception base + 0x18. On the ARM9 with exception
  base 0xFFFF0000, no HLE BIOS, IME = 1, IE = 1 and CPSR = 0x1F, sendInterrupt(0)
  leaves a pending state, and the task run on it leaves R15 = 0xFFFF001C.
\<close>

theorem interrupt_delivery_counterexample:
  "snd (sendInterrupt demoExt 0 demoCore (demo9\<lparr>ime := 1, ie := 1, cpsr := 0x1F\<rparr>)) =
     demo9\<lparr>ime := 1, ie := 1, cpsr := 0x1F, irf := 1\<rparr> \<and>
   pending (demo9\<lparr>ime := 1, ie := 1, cpsr := 0x1F, irf := 1\<rparr>) \<and>
   exceptionAddr demoCore + 0x18 = 0xFFFF0018 \<and>
   (case interrupt demoExt demoCore (demo9\<lparr>ime := 1, ie := 1, cpsr := 0x1F, irf := 1\<rparr>) of
      None \<Rightarrow> False
    | Some (c', t') \<Rightarrow> getReg t' 15 = 0xFFFF001C \<and> getReg t' 15 \<noteq> exceptionAddr demoCore + 0x18)"
  by (simp add: demo_defs run_defs)

section \<open>The cycle counters in the NDS frame loop\<close>

lemma ndsInnerBody_globalCycles:
  "globalCycles (ndsCore (ndsInnerBody run s)) =
     min (cyclesOrMax (arm9 (ndsInnerBody run s))) (cyclesOrMax (arm7 (ndsInnerBody run s)))"
  by (simp add: ndsInnerBody_def cyclesOrMax_def Let_def split_beta)

lemma ndsInnerLoop_iter:
  assumes "ndsInnerLoop run s0 = Some s"
  shows "s = s0 \<or> ndsInnerIter run s0 s"
proof -
  have "\<forall>e. (s0 = e \<or> ndsInnerIter run e s0) \<longrightarrow> (s = e \<or> ndsInnerIter run e s)"
    using assms
  proof (rule ndsInnerLoop.raw_induct [rotated])
    fix loop r s1 s2
    assume IH: "\<And>x b y. loop x b = Some y \<Longrightarrow>
        \<forall>e. (b = e \<or> ndsInnerIter x e b) \<longrightarrow> (y = e \<or> ndsInnerIter x e y)"
      and eq: "(case tasks (ndsCore s1) of
                  [] \<Rightarrow> None
                | t # ts \<Rightarrow>
                    if globalCycles (ndsCore s1) < taskCycles t
                    then loop r (ndsInnerBody r s1) else Some s1) = Some s2"
    show "\<forall>e. (s1 = e \<or> ndsInnerIter r e s1) \<longrightarrow> (s2 = e \<or> ndsInnerIter r e s2)"
    proof (intro allI impI)
      fix e assume e: "s1 = e \<or> ndsInnerIter r e s1"
      show "s2 = e \<or> ndsInnerIter r e s2"
      proof (cases "ndsInnerGuard s1")
        case True
        then have l: "loop r (ndsInnerBody r s1) = Some s2"
          using eq by (auto simp add: ndsInnerGuard_def split: list.splits if_splits)
        have "ndsInnerIter r e (ndsInnerBody r s1)"
          using e True by (auto intro: ndsInnerIter.intros)
        with IH [OF l] show ?thesis by blast
      next
        case False
        then have "s2 = s1"
          using eq by (auto simp add: ndsInnerGuard_def split: list.splits if_splits)
        with e show ?thesis by simp
      qed
    qed
  qed
  then show ?thesis by blast
qed

text \<open>
  C2: at the end of every iteration of the inner loop of runNdsFrame, whatever the
  state the loop was entered in and whatever the opcodes do, \<^verbatim>\<open>globalCycles\<close> is at
  most the smaller of the two CPUs' cycle counters, a halted CPU counting as the
  largest 32-bit value.
\<close>

theorem ndsInner_globalCycles_bound:
  assumes "ndsInnerIter run s0 s"
  shows "globalCycles (ndsCore s) \<le> min (cyclesOrMax (arm9 s)) (cyclesOrMax (arm7 s))"
  using assms by cases (simp_all only: ndsInnerBody_globalCycles order_refl)

theorem ndsInner_globalCycles_bound_witness:
  "ndsInnerIter demoRun demoNds (ndsInnerBody demoRun demoNds) \<and>
   ndsInnerIter demoRun demoNds (ndsInnerBody demoRun (ndsInnerBody demoRun demoNds)) \<and>
   cyclesOrMax (arm9 demoNds) = 100 \<and> cyclesOrMax (arm7 demoNds) = 0xFFFFFFFF \<and>
   globalCycles (ndsCore (ndsInnerBody demoRun demoNds)) = 102 \<and>
   cyclesOrMax (arm9 (ndsInnerBody demoRun demoNds)) = 103 \<and>
   cyclesOrMax (arm7 (ndsInnerBody demoRun demoNds)) = 102 \<and>
   globalCycles (ndsCore (ndsInnerBody demoRun demoNds))
     \<le> min (cyclesOrMax (arm9 (ndsInnerBody demoRun demoNds)))
           (cyclesOrMax (arm7 (ndsInnerBody demoRun demoNds))) \<and>
   globalCycles (ndsCore (ndsInnerBody demoRun (ndsInnerBody demoRun demoNds)))
     \<le> min (cyclesOrMax (arm9 (ndsInnerBody demoRun (ndsInnerBody demoRun demoNds))))
           (cyclesOrMax (arm7 (ndsInnerBody demoRun (ndsInnerBody demoRun demoNds))))"
proof -
  have g0: "ndsInnerGuard demoNds"
    by (simp add: ndsInnerGuard_def demoNds_def demoCore_def)
  have b1: "globalCycles (ndsCore (ndsInnerBody demoRun demoNds)) = 102"
    "tasks (ndsCore (ndsInnerBody demoRun demoNds)) = [Task (ForeignTask 0) 200]"
    "cyclesOrMax (arm9 (ndsInnerBody demoRun demoNds)) = 103"
    "cyclesOrMax (arm7 (ndsInnerBody demoRun demoNds)) = 102"
    by (simp_all add: ndsInnerBody_def demoNds_def demoRun_def demo_defs cyclesOrMax_def Let_def)
  have c0: "cyclesOrMax (arm9 demoNds) = 100" "cyclesOrMax (arm7 demoNds) = 0xFFFFFFFF"
    by (simp_all add: demoNds_def demo_defs cyclesOrMax_def)
  have g1: "ndsInnerGuard (ndsInnerBody demoRun demoNds)"
    by (simp add: ndsInnerGuard_def b1)
  note i1 = ndsInnerIter.first [OF g0, of demoRun]
  note i2 = ndsInnerIter.again [OF i1 g1]
  from ndsInner_globalCycles_bound [OF i1] ndsInner_globalCycles_bound [OF i2] i1 i2 c0
  show ?thesis by (simp add: b1)
qed

section \<open>Unknown opcodes with the reserved condition\<close>

lemma handleReserved_unpatched:
  assumes "opcode AND 0x0E000000 \<noteq> 0x0A000000"
    and "\<not> (bios s \<and> opcode = 0xFF000000)"
    and "\<not> dldiPatched co"
  shows "handleReserved E opcode co s =
           (1, co\<lparr>logged := logged co @ [UnknownArm (cpu s) opcode]\<rparr>, s)"
  using assms by (auto simp add: handleReserved_def unkArm_def)

lemma handleReserved_patched_other:
  assumes "opcode AND 0x0E000000 \<noteq> 0x0A000000"
    and "\<not> (bios s \<and> opcode = 0xFF000000)"
    and "dldiPatched co"
    and "opcode \<notin> {DLDI_START E, DLDI_INSERT E, DLDI_READ E, DLDI_WRITE E, DLDI_CLEAR E, DLDI_STOP E}"
  shows "handleReserved E opcode co s = bx E 14 co s"
  using assms by (auto simp add: handleReserved_def dldiSwitch_def)

text \<open>
  C6: an opcode with the reserved condition that is neither the BLX pattern, nor the
  HLE sentinel, nor a DLDI sentinel is meant to be logged as unknown at cost 1 in every
  state. With the DLDI stub patched the code does not do so. For opcode 0xF1234567 on
  the ARM9 without HLE BIOS and with a patched stub, handleReserved returns whatever
  \<^verbatim>\<open>bx(14)\<close> returns, for every behaviour \<open>f\<close> of \<^verbatim>\<open>bx\<close>, and logs nothing itself: the
  \<^verbatim>\<open>switch\<close> has no default, so control reaches \<^verbatim>\<open>return bx(14)\<close>. In the same state
  with the stub not patched the opcode is logged and costs 1.
\<close>

theorem handleReserved_patched_unknown:
  "(0xF1234567 :: u32) AND 0x0E000000 \<noteq> 0x0A000000 \<and>
   (\<forall>f. handleReserved (demoExt\<lparr>bx := f\<rparr>) 0xF1234567 (demoCore\<lparr>dldiPatched := True\<rparr>) demo9 =
        f 14 (demoCore\<lparr>dldiPatched := True\<rparr>) demo9) \<and>
   handleReserved demoExt 0xF1234567 (demoCore\<lparr>dldiPatched := True\<rparr>) demo9 =
     (3, demoCore\<lparr>dldiPatched := True\<rparr>, demo9) \<and>
   handleReserved demoExt 0xF1234567 demoCore demo9 =
     (1, demoCore\<lparr>logged := [UnknownArm False 0xF1234567]\<rparr>, demo9)"
  by (simp add: handleReserved_def dldiSwitch_def unkArm_def demo_defs)

end
